theory Spec2Isabelle
  imports Main "HOL-Library.Char_ord" "HOL-Library.List_Lexorder"
begin

unbundle bit_operations_syntax

section \<open>Errors\<close>

text \<open>
  The exceptions raised by the functions of \<open>file_py.py\<close> that are modelled here.
  \<open>RuntimeError\<close> carries the exception it wraps (\<open>dir_ls\<close> re-raises whatever its loop
  raised as a \<open>RuntimeError\<close>).
\<close>

datatype error =
    ValueError
  | KeyError
  | FileNotFoundError
  | NotADirectoryError
  | RuntimeError error

section \<open>\<open>symbolic_to_octal\<close>\<close>

text \<open>
  Python strings are modelled as \<open>string\<close>; a character stands for a code point below 256.
  Python integers are \<open>int\<close>, whose \<open>AND\<close>, \<open>OR\<close> and \<open>NOT\<close> are the two's complement
  operations of Python's \<open>&\<close>, \<open>|\<close> and \<open>~\<close>.
\<close>

text \<open>The constants of the \<open>stat\<close> module.\<close>

definition S_IRUSR :: int where "S_IRUSR = 256"
definition S_IWUSR :: int where "S_IWUSR = 128"
definition S_IXUSR :: int where "S_IXUSR = 64"
definition S_IRGRP :: int where "S_IRGRP = 32"
definition S_IWGRP :: int where "S_IWGRP = 16"
definition S_IXGRP :: int where "S_IXGRP = 8"
definition S_IROTH :: int where "S_IROTH = 4"
definition S_IWOTH :: int where "S_IWOTH = 2"
definition S_IXOTH :: int where "S_IXOTH = 1"

text \<open>The dictionary \<open>perm_bits\<close>, a dictionary of dictionaries, in the order it is written.\<close>

definition perm_bits :: "(char \<times> (char \<times> int) list) list" where
  "perm_bits =
    [(CHR ''u'', [(CHR ''r'', S_IRUSR), (CHR ''w'', S_IWUSR), (CHR ''x'', S_IXUSR)]),
     (CHR ''g'', [(CHR ''r'', S_IRGRP), (CHR ''w'', S_IWGRP), (CHR ''x'', S_IXGRP)]),
     (CHR ''o'', [(CHR ''r'', S_IROTH), (CHR ''w'', S_IWOTH), (CHR ''x'', S_IXOTH)]),
     (CHR ''a'', [(CHR ''r'', S_IRUSR OR S_IRGRP OR S_IROTH),
                  (CHR ''w'', S_IWUSR OR S_IWGRP OR S_IWOTH),
                  (CHR ''x'', S_IXUSR OR S_IXGRP OR S_IXOTH)])]"

text \<open>\<open>symbolic.split(',')\<close>: every comma separates; the empty string gives one empty piece.\<close>

fun split_comma :: "string \<Rightarrow> string list" where
  "split_comma [] = [[]]"
| "split_comma (c # cs) =
     (if c = CHR '','' then [] # split_comma cs
      else (case split_comma cs of
              [] \<Rightarrow> [[c]]
            | piece # pieces \<Rightarrow> (c # piece) # pieces))"

text \<open>
  \<open>op.strip()\<close>: the characters below 256 for which \<open>str.isspace\<close> holds are removed
  from both ends.
\<close>

definition is_space :: "char \<Rightarrow> bool" where
  "is_space c = ((of_char c :: nat) \<in> set [9, 10, 11, 12, 13, 28, 29, 30, 31, 32, 133, 160])"

definition strip :: "string \<Rightarrow> string" where
  "strip s = rev (dropWhile is_space (rev (dropWhile is_space s)))"

text \<open>
  \<open>re.match(r'([ugoa]*)([+=-])([rwx]*)', text)\<close>: a match of a prefix of the text. The
  first group is greedy and the character after it must be an action; giving back letters
  of the first group cannot help, since they are not actions. The third group takes the
  longest run of permission letters and whatever follows it is not looked at. The result
  is \<open>match.groups()\<close>.
\<close>

definition re_match_perm :: "string \<Rightarrow> (string \<times> char \<times> string) option" where
  "re_match_perm text =
     (let who = takeWhile (\<lambda>c. c \<in> set ''ugoa'') text;
          rest = dropWhile (\<lambda>c. c \<in> set ''ugoa'') text
      in case rest of
           [] \<Rightarrow> None
         | action # rest' \<Rightarrow>
             if action \<in> set ''+=-''
             then Some (who, action, takeWhile (\<lambda>c. c \<in> set ''rwx'') rest')
             else None)"

text \<open>\<open>for key in perm_bits[w]: perm &= ~perm_bits[w][key]\<close>, on the dictionary of \<open>w\<close>.\<close>

definition reset_category :: "(char \<times> int) list \<Rightarrow> int \<Rightarrow> int" where
  "reset_category bits perm = fold (\<lambda>(key, b) acc. acc AND NOT b) bits perm"

text \<open>The body of the innermost loop, for one category letter and one permission letter.\<close>

definition apply_perm :: "int \<Rightarrow> char \<Rightarrow> char \<Rightarrow> char \<Rightarrow> error + int" where
  "apply_perm perm w action p =
     (case map_of perm_bits w of
        None \<Rightarrow> Inl KeyError
      | Some bits \<Rightarrow>
          (case map_of bits p of
             None \<Rightarrow> Inr perm
           | Some b \<Rightarrow>
               if action = CHR ''+'' then Inr (perm OR b)
               else if action = CHR ''-'' then Inr (perm AND NOT b)
               else if action = CHR ''='' then
                 Inr ((if w \<noteq> CHR ''a'' then reset_category bits perm else perm) OR b)
               else Inr perm))"

text \<open>\<open>for p in perms\<close>.\<close>

fun perms_loop :: "int \<Rightarrow> char \<Rightarrow> char \<Rightarrow> string \<Rightarrow> error + int" where
  "perms_loop perm w action [] = Inr perm"
| "perms_loop perm w action (p # ps) =
     (case apply_perm perm w action p of
        Inl e \<Rightarrow> Inl e
      | Inr perm' \<Rightarrow> perms_loop perm' w action ps)"

text \<open>\<open>for w in who\<close>.\<close>

fun who_loop :: "int \<Rightarrow> string \<Rightarrow> char \<Rightarrow> string \<Rightarrow> error + int" where
  "who_loop perm [] action perms = Inr perm"
| "who_loop perm (w # ws) action perms =
     (case perms_loop perm w action perms of
        Inl e \<Rightarrow> Inl e
      | Inr perm' \<Rightarrow> who_loop perm' ws action perms)"

text \<open>The body of the outer loop, for one piece \<open>op\<close> of the split string.\<close>

definition apply_operation :: "int \<Rightarrow> string \<Rightarrow> error + int" where
  "apply_operation perm op =
     (case re_match_perm (strip op) of
        None \<Rightarrow> Inl ValueError
      | Some (who, action, perms) \<Rightarrow>
          who_loop perm (if who = [] then ''a'' else who) action perms)"

text \<open>\<open>for op in operations\<close>, with the running value of \<open>perm\<close>.\<close>

fun operations_loop :: "int \<Rightarrow> string list \<Rightarrow> error + int" where
  "operations_loop perm [] = Inr perm"
| "operations_loop perm (op # ops) =
     (case apply_operation perm op of
        Inl e \<Rightarrow> Inl e
      | Inr perm' \<Rightarrow> operations_loop perm' ops)"

text \<open>The function takes the string only; \<open>perm\<close> starts at 0.\<close>

definition symbolic_to_octal :: "string \<Rightarrow> error + int" where
  "symbolic_to_octal symbolic = operations_loop 0 (split_comma symbolic)"

section \<open>\<open>human_to_bytes\<close>\<close>











section \<open>\<open>dir_ls\<close>\<close>

text \<open>
  What \<open>dir_ls\<close> reads of a path \<open>p\<close> that the iterator yields: \<open>p.name\<close>, \<open>str(p)\<close>,
  \<open>p.is_file()\<close>, \<open>p.is_dir()\<close> and \<open>p.is_symlink()\<close>.
\<close>

record entry =
  name :: string
  path_str :: string
  is_file :: bool
  is_dir :: bool
  is_symlink :: bool

text \<open>
  What \<open>dir_ls\<close> reads of the file system at its argument \<open>path\<close>: \<open>path.exists()\<close>,
  \<open>path.is_dir()\<close>, and the paths that \<open>path.iterdir()\<close> and \<open>path.rglob('*')\<close> yield, in the
  order in which they yield them.
\<close>

record root_view =
  root_exists :: bool
  root_is_dir :: bool
  iterdir :: "entry list"
  rglob :: "entry list"

text \<open>What the body of the loop does with one path: \<open>continue\<close>, \<open>results.append(p)\<close>,
  or \<open>raise\<close>.\<close>

datatype verdict = Continue | Append | Raise error

text \<open>\<open>p.name.startswith('.')\<close>.\<close>

definition startswith_dot :: "string \<Rightarrow> bool" where
  "startswith_dot s = (case s of [] \<Rightarrow> False | c # cs \<Rightarrow> c = CHR ''.'')"

text \<open>The block under \<open># Type filtering\<close>; \<open>None\<close> when control falls through it.\<close>

definition type_filtering :: "string \<Rightarrow> entry \<Rightarrow> verdict option" where
  "type_filtering type_filter p =
     (if type_filter \<noteq> ''any'' then
        (if type_filter = ''file'' \<and> \<not> is_file p then Some Continue
         else if type_filter = ''directory'' \<and> \<not> is_dir p then Some Continue
         else if type_filter = ''symlink'' \<and> \<not> is_symlink p then Some Continue
         else Some (Raise ValueError))
      else None)"

text \<open>
  The blocks under \<open># Glob filtering\<close> and \<open># Regexp filtering\<close>. A pattern that is
  \<open>None\<close> or the empty string is false for Python's \<open>if\<close>, and the block is skipped.
  \<open>p.match(glob)\<close> and \<open>re.search(regexp, str(p))\<close> are library calls: their outcomes are
  the parameters \<open>path_match\<close> and \<open>re_search\<close>.
\<close>

definition glob_filtering ::
  "(entry \<Rightarrow> string \<Rightarrow> bool) \<Rightarrow> string option \<Rightarrow> bool \<Rightarrow> entry \<Rightarrow> verdict option" where
  "glob_filtering path_match glob invert p =
     (case glob of
        None \<Rightarrow> None
      | Some g \<Rightarrow>
          if g = [] then None
          else
            (let condition = (if path_match p g then \<not> invert else invert)
             in if \<not> condition then Some Continue else None))"

definition regexp_filtering ::
  "(string \<Rightarrow> string \<Rightarrow> bool) \<Rightarrow> string option \<Rightarrow> bool \<Rightarrow> entry \<Rightarrow> verdict option" where
  "regexp_filtering re_search regexp invert p =
     (case regexp of
        None \<Rightarrow> None
      | Some r \<Rightarrow>
          if r = [] then None
          else
            (let condition = (if re_search r (path_str p) then \<not> invert else invert)
             in if \<not> condition then Some Continue else None))"

text \<open>The body of \<open>for p in iterator\<close>.\<close>

definition visit ::
  "(entry \<Rightarrow> string \<Rightarrow> bool) \<Rightarrow> (string \<Rightarrow> string \<Rightarrow> bool) \<Rightarrow> bool \<Rightarrow> string \<Rightarrow>
   string option \<Rightarrow> string option \<Rightarrow> bool \<Rightarrow> entry \<Rightarrow> verdict" where
  "visit path_match re_search all type_filter glob regexp invert p =
     (if \<not> all \<and> startswith_dot (name p) then Continue
      else case type_filtering type_filter p of
        Some v \<Rightarrow> v
      | None \<Rightarrow>
          (case glob_filtering path_match glob invert p of
             Some v \<Rightarrow> v
           | None \<Rightarrow>
               (case regexp_filtering re_search regexp invert p of
                  Some v \<Rightarrow> v
                | None \<Rightarrow> Append)))"

text \<open>The loop, with the list \<open>results\<close> built so far.\<close>

fun ls_loop ::
  "(entry \<Rightarrow> string \<Rightarrow> bool) \<Rightarrow> (string \<Rightarrow> string \<Rightarrow> bool) \<Rightarrow> bool \<Rightarrow> string \<Rightarrow>
   string option \<Rightarrow> string option \<Rightarrow> bool \<Rightarrow> entry list \<Rightarrow> entry list \<Rightarrow> error + entry list" where
  "ls_loop path_match re_search all type_filter glob regexp invert [] results = Inr results"
| "ls_loop path_match re_search all type_filter glob regexp invert (p # ps) results =
     (case visit path_match re_search all type_filter glob regexp invert p of
        Continue \<Rightarrow> ls_loop path_match re_search all type_filter glob regexp invert ps results
      | Append \<Rightarrow>
          ls_loop path_match re_search all type_filter glob regexp invert ps (results @ [p])
      | Raise e \<Rightarrow> Inl e)"

text \<open>
  \<open>dir_ls\<close>. The \<open>try\<close> around the loop turns every exception of the loop into a
  \<open>RuntimeError\<close>. Failures of the file system calls themselves are not modelled.
\<close>

definition dir_ls ::
  "(entry \<Rightarrow> string \<Rightarrow> bool) \<Rightarrow> (string \<Rightarrow> string \<Rightarrow> bool) \<Rightarrow> root_view \<Rightarrow> bool \<Rightarrow> bool \<Rightarrow>
   string \<Rightarrow> string option \<Rightarrow> string option \<Rightarrow> bool \<Rightarrow> bool \<Rightarrow> error + entry list" where
  "dir_ls path_match re_search path all recurse type_filter glob regexp invert fail =
     (if \<not> root_exists path then
        (if fail then Inl FileNotFoundError else Inr [])
      else if \<not> root_is_dir path then Inl NotADirectoryError
      else
        (let iterator = (if recurse then rglob path else iterdir path)
         in case ls_loop path_match re_search all type_filter glob regexp invert iterator [] of
              Inl e \<Rightarrow> Inl (RuntimeError e)
            | Inr results \<Rightarrow> Inr results))"

section \<open>\<open>path_filter\<close>\<close>

text \<open>The body of \<open>for path in paths\<close>: the value of \<open>match\<close> at the final test.\<close>

definition path_filter_match ::
  "(entry \<Rightarrow> string \<Rightarrow> bool) \<Rightarrow> (string \<Rightarrow> string \<Rightarrow> bool) \<Rightarrow>
   string option \<Rightarrow> string option \<Rightarrow> bool \<Rightarrow> entry \<Rightarrow> bool" where
  "path_filter_match path_match re_search glob regexp invert p =
     (let match = True;
          match = (case glob of
                     None \<Rightarrow> match
                   | Some g \<Rightarrow>
                       if g = [] then match
                       else if path_match p g then \<not> invert else invert);
          match = (case regexp of
                     None \<Rightarrow> match
                   | Some r \<Rightarrow>
                       if r = [] then match
                       else if re_search r (path_str p) then \<not> invert else invert)
      in match)"

definition path_filter ::
  "(entry \<Rightarrow> string \<Rightarrow> bool) \<Rightarrow> (string \<Rightarrow> string \<Rightarrow> bool) \<Rightarrow> entry list \<Rightarrow>
   string option \<Rightarrow> string option \<Rightarrow> bool \<Rightarrow> entry list" where
  "path_filter path_match re_search paths glob regexp invert =
     filter (path_filter_match path_match re_search glob regexp invert) paths"

section \<open>Evaluation of \<open>symbolic_to_octal\<close>\<close>

lemmas stat_defs =
  S_IRUSR_def S_IWUSR_def S_IXUSR_def S_IRGRP_def S_IWGRP_def S_IXGRP_def
  S_IROTH_def S_IWOTH_def S_IXOTH_def

text \<open>
  C1. An assignment to a named category is meant to clear the three bits of that category
  once and then set every requested bit, so that \<open>u=rw\<close> gives owner read and owner write
  (384). In the code the reset sits inside the loop over the permission letters: the bits of
  the category are cleared again before each letter, and only the last letter survives.
  \<open>symbolic_to_octal("u=rw")\<close> returns 128, owner write alone.
\<close>

theorem symbolic_to_octal_assign_keeps_last_letter_only:
  "symbolic_to_octal ''u=rw'' = Inr 128"
  by code_simp

text \<open>
  C3. A piece with a permission letter outside \<open>r\<close>, \<open>w\<close>, \<open>x\<close> is meant to be refused.
  \<open>re.match\<close> accepts a piece as soon as a prefix of it has the form of a clause, and the
  rest of the piece is dropped: \<open>symbolic_to_octal("u+rq")\<close> returns 256, the value
  of \<open>u+r\<close>, and raises nothing.
\<close>

theorem symbolic_to_octal_accepts_trailing_text:
  "symbolic_to_octal ''u+rq'' = Inr 256"
  by code_simp

lemma symbolic_to_octal_rejects_empty_and_unknown_who:
  "symbolic_to_octal [] = Inl ValueError \<and> symbolic_to_octal ''z+r'' = Inl ValueError"
  by code_simp

section \<open>The result of \<open>symbolic_to_octal\<close> stays within the nine permission bits\<close>

lemma perm_bits_range:
  assumes "map_of perm_bits w = Some bits" and "map_of bits p = Some b"
  shows "0 \<le> b \<and> b < 512"
  using assms by (auto simp: perm_bits_def stat_defs split: if_splits)

lemma reset_category_bounds:
  "0 \<le> perm \<Longrightarrow> 0 \<le> reset_category bits perm \<and> reset_category bits perm \<le> perm"
proof (induction bits arbitrary: perm)
  case Nil
  then show ?case by (simp add: reset_category_def)
next
  case (Cons kb bits)
  obtain key b where kb: "kb = (key, b)" by (cases kb)
  have step: "0 \<le> perm AND NOT b" "perm AND NOT b \<le> perm"
    using Cons.prems by (simp_all add: AND_upper1)
  have "reset_category (kb # bits) perm = reset_category bits (perm AND NOT b)"
    by (simp add: reset_category_def kb)
  with Cons.IH [OF step(1)] step(2) show ?case by simp
qed

lemma apply_perm_bounds:
  assumes "apply_perm perm w action p = Inr perm'" and "0 \<le> perm" and "perm < 512"
  shows "0 \<le> perm' \<and> perm' < 512"
proof (cases "map_of perm_bits w")
  case None
  with assms show ?thesis by (simp add: apply_perm_def)
next
  case w: (Some bits)
  show ?thesis
  proof (cases "map_of bits p")
    case None
    with w assms show ?thesis by (simp add: apply_perm_def)
  next
    case (Some b)
    note b = perm_bits_range [OF w Some]
    have rc: "0 \<le> reset_category bits perm" "reset_category bits perm < 512"
      using reset_category_bounds [of perm bits] assms(2,3) by simp_all
    have or1: "0 \<le> x \<Longrightarrow> x < 512 \<Longrightarrow> 0 \<le> x OR b \<and> x OR b < 512" for x
      using b OR_upper [of x 9 b] by simp
    have and1: "0 \<le> perm AND NOT b \<and> perm AND NOT b < 512"
      using assms(2,3) AND_upper1 [of perm "NOT b"] by simp
    from assms(1) show ?thesis
      using or1 [OF assms(2,3)] or1 [OF rc] and1 assms(2,3)
      by (auto simp: apply_perm_def w Some split: if_splits)
  qed
qed

lemma perms_loop_bounds:
  "perms_loop perm w action ps = Inr perm' \<Longrightarrow> 0 \<le> perm \<Longrightarrow> perm < 512
   \<Longrightarrow> 0 \<le> perm' \<and> perm' < 512"
proof (induction ps arbitrary: perm)
  case Nil
  then show ?case by simp
next
  case (Cons p ps)
  then show ?case
    by (auto split: sum.splits dest: apply_perm_bounds)
qed

lemma who_loop_bounds:
  "who_loop perm ws action ps = Inr perm' \<Longrightarrow> 0 \<le> perm \<Longrightarrow> perm < 512
   \<Longrightarrow> 0 \<le> perm' \<and> perm' < 512"
proof (induction ws arbitrary: perm)
  case Nil
  then show ?case by simp
next
  case (Cons w ws)
  then show ?case
    by (auto split: sum.splits dest: perms_loop_bounds)
qed

lemma apply_operation_bounds:
  "apply_operation perm op = Inr perm' \<Longrightarrow> 0 \<le> perm \<Longrightarrow> perm < 512
   \<Longrightarrow> 0 \<le> perm' \<and> perm' < 512"
  unfolding apply_operation_def
  by (auto split: option.splits dest: who_loop_bounds)

lemma operations_loop_bounds:
  "operations_loop perm ops = Inr perm' \<Longrightarrow> 0 \<le> perm \<Longrightarrow> perm < 512
   \<Longrightarrow> 0 \<le> perm' \<and> perm' < 512"
proof (induction ops arbitrary: perm)
  case Nil
  then show ?case by simp
next
  case (Cons op ops)
  then show ?case
    by (auto split: sum.splits dest: apply_operation_bounds)
qed

lemma below_512_no_high_bits:
  assumes "0 \<le> (m::int)" and "m < 512"
  shows "m AND NOT 511 = 0"
proof -
  have t: "take_bit 9 m = m" using assms by (simp add: take_bit_int_eq_self)
  have "(511::int) = mask 9" by (simp add: mask_eq_exp_minus_1)
  then have "m AND NOT 511 = take_bit 9 m AND NOT (mask 9)" using t by simp
  also have "\<dots> = 0"
    by (rule bit_eqI) (auto simp: bit_simps)
  finally show ?thesis .
qed

text \<open>
  C5. Whenever \<open>symbolic_to_octal\<close> returns, the mode it returns lies between 0 and
  \<open>0o777\<close> (511) and has no bit set outside the nine permission bits, whatever the
  categories named, \<open>a\<close> included.
\<close>

theorem symbolic_to_octal_within_nine_bits:
  assumes "symbolic_to_octal symbolic = Inr mode"
  shows "0 \<le> mode \<and> mode \<le> 511 \<and> mode AND NOT 511 = 0"
proof -
  have "0 \<le> mode \<and> mode < 512"
    using assms operations_loop_bounds [of 0 "split_comma symbolic" mode]
    by (simp add: symbolic_to_octal_def)
  then show ?thesis using below_512_no_high_bits by simp
qed

theorem symbolic_to_octal_within_nine_bits_witness:
  "symbolic_to_octal ''u+rwx,g+rx,o+r'' = Inr 492
   \<and> (0::int) \<le> 492 \<and> (492::int) \<le> 511 \<and> (492::int) AND NOT 511 = 0"
proof -
  have h: "symbolic_to_octal ''u+rwx,g+rx,o+r'' = Inr 492" by code_simp
  show ?thesis using h symbolic_to_octal_within_nine_bits [OF h] by simp
qed

section \<open>Evaluation of \<open>dir_ls\<close> and \<open>path_filter\<close>\<close>

text \<open>
  C7. A \<open>type_filter\<close> outside \<open>any\<close>, \<open>file\<close>, \<open>directory\<close>, \<open>symlink\<close> is meant to be
  refused, as the docstring of \<open>dir_ls\<close> says (\<open>ValueError: If type_filter is invalid\<close>). The
  code looks at \<open>type_filter\<close> only inside the loop, once per path that is not skipped as
  hidden: on an existing directory that yields no path, \<open>dir_ls\<close> with
  \<open>type_filter="bogus"\<close> returns the empty list, whatever the other arguments.
\<close>

theorem dir_ls_bogus_type_filter_on_empty_directory:
  "dir_ls path_match re_search
     \<lparr>root_exists = True, root_is_dir = True, iterdir = [], rglob = []\<rparr>
     all recurse ''bogus'' glob regexp invert fail = Inr []"
  by (simp add: dir_ls_def)

text \<open>
  C8. With \<open>type_filter="file"\<close> a regular file is meant to be kept. In the chain of
  \<open>if\<close>/\<open>elif\<close> each test asks for the filter \<^emph>\<open>and\<close> a path of another kind, so a path of
  the requested kind fails all three tests and reaches the \<open>else\<close>, which raises
  \<open>ValueError\<close>; the \<open>except\<close> around the loop re-raises it as \<open>RuntimeError\<close>. On a
  directory holding the one regular file \<open>a.txt\<close>, \<open>dir_ls\<close> with \<open>type_filter="file"\<close> raises.
\<close>

theorem dir_ls_type_filter_raises_on_matching_entry:
  "dir_ls (\<lambda>p g. False) (\<lambda>r s. False)
     \<lparr>root_exists = True, root_is_dir = True,
      iterdir = [\<lparr>name = ''a.txt'', path_str = ''d/a.txt'',
                  is_file = True, is_dir = False, is_symlink = False\<rparr>],
      rglob = [\<lparr>name = ''a.txt'', path_str = ''d/a.txt'',
                is_file = True, is_dir = False, is_symlink = False\<rparr>]\<rparr>
     False False ''file'' None None False True
   = Inl (RuntimeError ValueError)"
  by (simp add: dir_ls_def visit_def startswith_dot_def type_filtering_def)

text \<open>
  C9. With a glob and a regular expression both given, a path is meant to be kept only if
  it passes both. \<open>dir_ls\<close> does so, \<open>path_filter\<close> does not: its regexp block overwrites the
  \<open>match\<close> that its glob block computed. For the path \<open>a.txt\<close>, the glob \<open>*.py\<close> (which
  \<open>a.txt\<close> does not match) and the regular expression \<open>a\<close> (which is found in \<open>a.txt\<close>),
  \<open>path_filter\<close> keeps the path.
\<close>

theorem path_filter_regexp_overrides_glob:
  "path_filter (\<lambda>p g. False) (\<lambda>r s. True)
     [\<lparr>name = ''a.txt'', path_str = ''a.txt'',
       is_file = True, is_dir = False, is_symlink = False\<rparr>]
     (Some ''*.py'') (Some ''a'') False
   = [\<lparr>name = ''a.txt'', path_str = ''a.txt'',
       is_file = True, is_dir = False, is_symlink = False\<rparr>]"
  by (simp add: path_filter_def path_filter_match_def)

section \<open>Assignment under the category \<open>a\<close>\<close>

lemma apply_perm_all_assign:
  assumes "p \<in> set ''rwx''"
  shows "apply_perm perm (CHR ''a'') (CHR ''='') p =
         Inr (perm OR (if p = CHR ''r'' then 292 else if p = CHR ''w'' then 146 else 73))"
  using assms by (auto simp: apply_perm_def perm_bits_def stat_defs)

lemma perms_loop_all_assign:
  "set ps \<subseteq> set ''rwx'' \<Longrightarrow>
   perms_loop perm (CHR ''a'') (CHR ''='') ps =
     Inr (perm OR (if CHR ''r'' \<in> set ps then 292 else 0)
               OR (if CHR ''w'' \<in> set ps then 146 else 0)
               OR (if CHR ''x'' \<in> set ps then 73 else 0))"
proof (induction ps arbitrary: perm)
  case Nil
  then show ?case by simp
next
  case (Cons p ps)
  then have p: "p \<in> set ''rwx''" and ps: "set ps \<subseteq> set ''rwx''" by auto
  show ?case
    unfolding perms_loop.simps apply_perm_all_assign [OF p] sum.case Cons.IH [OF ps]
    using p by (auto simp: bit_eq_iff bit_or_iff)
qed

lemma re_match_perm_perms:
  "re_match_perm text = Some (who, action, perms) \<Longrightarrow> set perms \<subseteq> set ''rwx''"
  by (auto simp: re_match_perm_def Let_def split: list.splits if_splits dest: set_takeWhileD)

text \<open>
  C2, as the code has it. The reset of a category is guarded by \<open>w != 'a'\<close>: a clause with
  action \<open>=\<close> whose category part is empty or \<open>a\<close> clears nothing. It sets, in all three
  categories, the bit of every permission letter it names (292 is \<open>0o444\<close>, 146 is \<open>0o222\<close>,
  73 is \<open>0o111\<close>) and leaves every other bit of the running mode as it was.
\<close>

theorem assign_under_all_sets_and_clears_nothing:
  assumes "re_match_perm (strip op) = Some (who, CHR ''='', perms)"
    and "who = [] \<or> who = ''a''"
  shows "apply_operation perm op =
     Inr (perm OR (if CHR ''r'' \<in> set perms then 292 else 0)
               OR (if CHR ''w'' \<in> set perms then 146 else 0)
               OR (if CHR ''x'' \<in> set perms then 73 else 0))"
proof -
  have w: "(if who = [] then ''a'' else who) = ''a''" using assms(2) by auto
  have "apply_operation perm op = who_loop perm ''a'' (CHR ''='') perms"
    by (simp add: apply_operation_def assms(1) w del: who_loop.simps)
  also have "\<dots> = perms_loop perm (CHR ''a'') (CHR ''='') perms"
    by (simp split: sum.splits)
  finally show ?thesis
    using perms_loop_all_assign [OF re_match_perm_perms [OF assms(1)]] by simp
qed

theorem assign_under_all_sets_and_clears_nothing_witness:
  "re_match_perm (strip ''a=r'') = Some (''a'', CHR ''='', ''r'')
   \<and> apply_operation 128 ''a=r'' = Inr 420"
proof -
  have h: "re_match_perm (strip ''a=r'') = Some (''a'', CHR ''='', ''r'')" by code_simp
  show ?thesis
    using h assign_under_all_sets_and_clears_nothing [OF h, of 128] by simp
qed

text \<open>
  After \<open>u+w\<close>, the clause \<open>a=r\<close> does not leave the three read bits alone (292): owner
  write survives, and the result is 420 (\<open>0o644\<close>).
\<close>

theorem assign_under_all_keeps_prior_bits:
  "symbolic_to_octal ''u+w,a=r'' = Inr 420 \<and> symbolic_to_octal ''u+w,a=r'' \<noteq> Inr 292"
  by code_simp

section \<open>Clauses apply from left to right, starting at 0\<close>






section \<open>The value of \<open>human_to_bytes\<close>\<close>











section \<open>The order of the result of \<open>dir_ls\<close>\<close>

lemma ls_loop_filter:
  "ls_loop pm rs all tf glob regexp invert ps acc = Inr res \<Longrightarrow>
   res = acc @ filter (\<lambda>p. visit pm rs all tf glob regexp invert p = Append) ps"
proof (induction ps arbitrary: acc)
  case Nil
  then show ?case by simp
next
  case (Cons p ps)
  show ?case
  proof (cases "visit pm rs all tf glob regexp invert p")
    case Continue
    with Cons.prems Cons.IH [of acc] show ?thesis by simp
  next
    case Append
    with Cons.prems Cons.IH [of "acc @ [p]"] show ?thesis by simp
  next
    case (Raise e)
    with Cons.prems show ?thesis by simp
  qed
qed

text \<open>
  C10, as the code has it. \<open>dir_ls\<close> does not sort. When it returns, its result is the
  paths that the loop appends, in the order in which \<open>iterdir\<close> (or \<open>rglob\<close>, when
  \<open>recurse\<close> is set) yields them; it is the empty list when the root does not exist.
\<close>

theorem dir_ls_keeps_enumeration_order:
  assumes "dir_ls pm rs path all recurse tf glob regexp invert fail = Inr results"
  shows "results =
     (if root_exists path
      then filter (\<lambda>p. visit pm rs all tf glob regexp invert p = Append)
             (if recurse then rglob path else iterdir path)
      else [])"
  using assms ls_loop_filter [of pm rs all tf glob regexp invert _ "[]" results]
  by (auto simp: dir_ls_def Let_def split: if_splits sum.splits)

theorem dir_ls_keeps_enumeration_order_witness:
  "dir_ls (\<lambda>p g. False) (\<lambda>r s. False)
     \<lparr>root_exists = True, root_is_dir = True,
      iterdir = [\<lparr>name = ''b'', path_str = ''d/b'',
                  is_file = True, is_dir = False, is_symlink = False\<rparr>,
                 \<lparr>name = ''.hidden'', path_str = ''d/.hidden'',
                  is_file = True, is_dir = False, is_symlink = False\<rparr>,
                 \<lparr>name = ''a'', path_str = ''d/a'',
                  is_file = True, is_dir = False, is_symlink = False\<rparr>],
      rglob = []\<rparr>
     False False ''any'' None None False True
   = Inr [\<lparr>name = ''b'', path_str = ''d/b'',
           is_file = True, is_dir = False, is_symlink = False\<rparr>,
          \<lparr>name = ''a'', path_str = ''d/a'',
           is_file = True, is_dir = False, is_symlink = False\<rparr>]
   \<and> [\<lparr>name = ''b'', path_str = ''d/b'',
        is_file = True, is_dir = False, is_symlink = False\<rparr>,
       \<lparr>name = ''a'', path_str = ''d/a'',
        is_file = True, is_dir = False, is_symlink = False\<rparr>]
     = filter (\<lambda>p. visit (\<lambda>p g. False) (\<lambda>r s. False) False ''any'' None None False p = Append)
         [\<lparr>name = ''b'', path_str = ''d/b'',
           is_file = True, is_dir = False, is_symlink = False\<rparr>,
          \<lparr>name = ''.hidden'', path_str = ''d/.hidden'',
           is_file = True, is_dir = False, is_symlink = False\<rparr>,
          \<lparr>name = ''a'', path_str = ''d/a'',
           is_file = True, is_dir = False, is_symlink = False\<rparr>]"
proof -
  have h: "dir_ls (\<lambda>p g. False) (\<lambda>r s. False)
     \<lparr>root_exists = True, root_is_dir = True,
      iterdir = [\<lparr>name = ''b'', path_str = ''d/b'',
                  is_file = True, is_dir = False, is_symlink = False\<rparr>,
                 \<lparr>name = ''.hidden'', path_str = ''d/.hidden'',
                  is_file = True, is_dir = False, is_symlink = False\<rparr>,
                 \<lparr>name = ''a'', path_str = ''d/a'',
                  is_file = True, is_dir = False, is_symlink = False\<rparr>],
      rglob = []\<rparr>
     False False ''any'' None None False True
   = Inr [\<lparr>name = ''b'', path_str = ''d/b'',
           is_file = True, is_dir = False, is_symlink = False\<rparr>,
          \<lparr>name = ''a'', path_str = ''d/a'',
           is_file = True, is_dir = False, is_symlink = False\<rparr>]"
    by (simp add: dir_ls_def visit_def startswith_dot_def type_filtering_def
        glob_filtering_def regexp_filtering_def)
  show ?thesis
    using h dir_ls_keeps_enumeration_order [OF h] by simp
qed

text \<open>
  A directory whose enumeration yields \<open>d/b\<close> before \<open>d/a\<close>: \<open>dir_ls\<close> returns them in that
  order, which is not the lexicographic order of the path strings.
\<close>

theorem dir_ls_result_not_sorted:
  "dir_ls (\<lambda>p g. False) (\<lambda>r s. False)
     \<lparr>root_exists = True, root_is_dir = True,
      iterdir = [\<lparr>name = ''b'', path_str = ''d/b'',
                  is_file = True, is_dir = False, is_symlink = False\<rparr>,
                 \<lparr>name = ''a'', path_str = ''d/a'',
                  is_file = True, is_dir = False, is_symlink = False\<rparr>],
      rglob = []\<rparr>
     False False ''any'' None None False True
   = Inr [\<lparr>name = ''b'', path_str = ''d/b'',
           is_file = True, is_dir = False, is_symlink = False\<rparr>,
          \<lparr>name = ''a'', path_str = ''d/a'',
           is_file = True, is_dir = False, is_symlink = False\<rparr>]
   \<and> \<not> sorted [''d/b'', ''d/a'']"
  by (simp add: dir_ls_def visit_def startswith_dot_def type_filtering_def
      glob_filtering_def regexp_filtering_def)

end
